theory Spec2Isabelle
  imports Main "HOL-Library.AList"
begin

section \<open>Python strings and integers\<close>

text \<open>
  \<^verbatim>\<open>verify.py\<close> reads its input as Python 3 \<^verbatim>\<open>str\<close>, a sequence of code points.
  The model covers the code points below 256, one \<^typ>\<open>char\<close> each, \<^term>\<open>of_char c\<close>
  being the code point: \<^term>\<open>CHR 0xB2\<close> is U+00B2 (superscript two). The built-ins
  the script calls are written out for this range as CPython 3 defines them. A general
  statement below is one about the lines of this range. Beyond it Python has more white
  space, more digits that \<^verbatim>\<open>int\<close> refuses (U+2460) and decimal digits that \<^verbatim>\<open>int\<close> accepts
  although they are not ASCII (U+0663); no general statement below is made of them.
\<close>

datatype error = ValueError | IndexError

text \<open>\<^verbatim>\<open>str.isspace\<close> on one character; \<^verbatim>\<open>str.strip()\<close> removes these at both ends.\<close>

definition isspace :: "char \<Rightarrow> bool" where
  "isspace c = ((of_char c :: nat) \<in> set [9, 10, 11, 12, 13, 28, 29, 30, 31, 32, 133, 160])"

definition strip :: "string \<Rightarrow> string" where
  "strip s = rev (dropWhile isspace (rev (dropWhile isspace s)))"

text \<open>
  \<^verbatim>\<open>str.isdigit\<close>: true of a non-empty string all of whose characters have the Unicode
  property Numeric_Type Digit or Decimal. Below 256 these are the ten ASCII digits and
  the superscripts U+00B2, U+00B3 and U+00B9.
\<close>

definition isdigit_char :: "char \<Rightarrow> bool" where
  "isdigit_char c =
     ((of_char c :: nat) \<in> set [48, 49, 50, 51, 52, 53, 54, 55, 56, 57, 178, 179, 185])"

definition isdigit :: "string \<Rightarrow> bool" where
  "isdigit s = (s \<noteq> [] \<and> list_all isdigit_char s)"

text \<open>\<^verbatim>\<open>s.startswith(p)\<close> and the substring test \<^verbatim>\<open>x in s\<close>.\<close>

definition startswith :: "string \<Rightarrow> string \<Rightarrow> bool" where
  "startswith s p = (take (length p) s = p)"

fun str_in :: "string \<Rightarrow> string \<Rightarrow> bool" where
  "str_in x [] = (x = [])"
| "str_in x (c # s) = (take (length x) (c # s) = x \<or> str_in x s)"

text \<open>
  \<^verbatim>\<open>int(s)\<close> in base 10. The argument loses the white space \<^verbatim>\<open>int\<close> knows at both ends,
  which is less than \<^verbatim>\<open>strip\<close> removes: the separators U+001C to U+001F stay. What is
  left is an optional sign and decimal digits, single underscores allowed between two
  digits; anything else raises \<^verbatim>\<open>ValueError\<close>. Below 256 the decimal digits are the ten
  ASCII digits; the superscript digits are not decimal.
\<close>

definition int_space :: "char \<Rightarrow> bool" where
  "int_space c = ((of_char c :: nat) \<in> set [9, 10, 11, 12, 13, 32, 133, 160])"

definition int_strip :: "string \<Rightarrow> string" where
  "int_strip s = rev (dropWhile int_space (rev (dropWhile int_space s)))"

definition decimal :: "char \<Rightarrow> bool" where
  "decimal c = (c \<in> set ''0123456789'')"

definition digit_value :: "char \<Rightarrow> nat" where
  "digit_value c = of_char c - 48"

definition decimal_value :: "string \<Rightarrow> nat" where
  "decimal_value s = foldl (\<lambda>a c. 10 * a + digit_value c) 0 s"

definition int_literal :: "string \<Rightarrow> error + int" where
  "int_literal s =
     (if s \<noteq> [] \<and> decimal (hd s) \<and> decimal (last s)
         \<and> list_all (\<lambda>c. decimal c \<or> c = CHR ''_'') s \<and> \<not> str_in ''__'' s
      then Inr (int (decimal_value (filter decimal s)))
      else Inl ValueError)"

definition py_int :: "string \<Rightarrow> error + int" where
  "py_int s =
     (case int_strip s of
        [] \<Rightarrow> Inl ValueError
      | c # r \<Rightarrow>
          if c = CHR ''+'' then int_literal r
          else if c = CHR ''-'' then map_sum id uminus (int_literal r)
          else int_literal (c # r))"

text \<open>\<^verbatim>\<open>"{}".format(n)\<close> of an integer, and \<^verbatim>\<open>sep.join(xs)\<close>.\<close>

fun str_nat :: "nat \<Rightarrow> string" where
  "str_nat n =
     (if n < 10 then [''0123456789'' ! n]
      else str_nat (n div 10) @ [''0123456789'' ! (n mod 10)])"

declare str_nat.simps [simp del]

definition str_int :: "int \<Rightarrow> string" where
  "str_int i = (if i < 0 then CHR ''-'' # str_nat (nat (- i)) else str_nat (nat i))"

fun join :: "string \<Rightarrow> string list \<Rightarrow> string" where
  "join sep [] = []"
| "join sep [x] = x"
| "join sep (x # y # ys) = x @ sep @ join sep (y # ys)"

text \<open>\<^verbatim>\<open>s.split(sep)\<close> for a separator of one character: never the empty list.\<close>

fun str_split :: "char \<Rightarrow> string \<Rightarrow> string list" where
  "str_split sep [] = [[]]"
| "str_split sep (c # s) =
     (if c = sep then [] # str_split sep s
      else (case str_split sep s of [] \<Rightarrow> [[c]] | x # xs \<Rightarrow> (c # x) # xs))"

section \<open>The constants and the class Issue\<close>

definition CHARSET :: string where
  "CHARSET = ''123456789 =-ABCDEFGHI+.)JKLMNOPQR-$*/STUVWXYZ0,(''"

definition RESET :: string where "RESET = CHR 0x1B # ''[0m''"
definition BOLD :: string where "BOLD = CHR 0x1B # ''[37;1m''"
definition GREEN :: string where "GREEN = CHR 0x1B # ''[32m''"
definition YELLOW :: string where "YELLOW = CHR 0x1B # ''[33m''"
definition RED :: string where "RED = CHR 0x1B # ''[31m''"

text \<open>
  \<^verbatim>\<open>Issue(fp, ln, cols, statement, details, dangerous=False, suggestions=[])\<close>; the
  selectors are the attributes \<^verbatim>\<open>self.fp\<close> to \<^verbatim>\<open>self.suggestions\<close>.
\<close>

datatype Issue =
  Issue (self_fp: string) (self_ln: nat) (self_cols: "nat list") (self_statement: string)
        (self_details: "string list") (self_dangerous: bool) (self_suggestions: "string list")

text \<open>
  \<^verbatim>\<open>Issue.__str__\<close>. \<^verbatim>\<open>self.cols[0]\<close> and \<^verbatim>\<open>self.details[1]\<close> raise \<^verbatim>\<open>IndexError\<close> out of
  range. \<^verbatim>\<open>" " * k\<close> is empty for \<open>k \<le> 0\<close>, which is what truncating subtraction on
  \<^typ>\<open>nat\<close> and \<^const>\<open>replicate\<close> give.
\<close>

definition str_Issue :: "Issue \<Rightarrow> error + string" where
  "str_Issue self =
     (let gutter = '' '' @ str_nat (self_ln self) @ '' | '';
          spacer = replicate (length gutter - 2) CHR '' '' @ ''| ''
      in if self_cols self = [] \<or> length (self_details self) < 2 then Inl IndexError
         else Inr (
           BOLD @ self_fp self @ '':'' @ str_nat (self_ln self) @ '':''
             @ str_nat (self_cols self ! 0) @ RESET @ '': ''
             @ (if self_dangerous self then RED else YELLOW)
             @ (if self_dangerous self then ''error'' else ''warning'')
             @ RESET @ '': '' @ join '' '' (self_details self) @ [CHR 0x0A]
           @ gutter @ self_statement self @ [CHR 0x0A]
           @ spacer
           @ replicate (self_cols self ! 0 - 1) CHR '' ''
           @ ''^'' @ replicate (length (self_cols self) - 1) CHR ''~''
           @ '' '' @ self_details self ! 1 @ [CHR 0x0A]
           @ join [CHR 0x0A]
               (map (\<lambda>suggestion. replicate (length gutter - 2) CHR '' '' @ ''= help: '' @ suggestion)
                  (self_suggestions self))
           @ [CHR 0x0A]))"

section \<open>The validation loop\<close>

text \<open>
  The dictionary \<^verbatim>\<open>labels\<close> is an association list in insertion order, as a Python
  \<^verbatim>\<open>dict\<close> is: \<^verbatim>\<open>labels[k] = v\<close> is \<^const>\<open>AList.update\<close>, which replaces the value of
  a key in place and appends a new key.
\<close>

type_synonym labels = "(int \<times> nat) list"

text \<open>
  The body of the loop, block by block. A block that only appends to \<^verbatim>\<open>issues\<close>
  returns what it appends. A block that calls \<^verbatim>\<open>int\<close> returns what it appended
  before the call raised, or what it appended and the variable it assigns.
\<close>

text \<open>Lines 96 to 108: characters outside \<^const>\<open>CHARSET\<close>.\<close>

definition illegal_characters :: "string \<Rightarrow> nat \<Rightarrow> string \<Rightarrow> Issue list" where
  "illegal_characters fp ln statement =
     concat (map (\<lambda>(column, c).
         if c \<notin> set CHARSET
         then [Issue fp ln [column + 1] statement
                [''statement contains'', ''illegal character''] True [''try removing'']]
         else [])
       (enumerate 0 statement))"

text \<open>Lines 110 to 125: the 80 column limit, on \<^verbatim>\<open>statement.strip()\<close>.\<close>

definition column_limit :: "string \<Rightarrow> nat \<Rightarrow> string \<Rightarrow> Issue list" where
  "column_limit fp ln statement =
     (if length (strip statement) > 80
      then [Issue fp ln [81 ..< length (strip statement) + 1] statement
             [''statement exceeds 80 column limit'', ''''] False
             [''break statement across multiple lines using continuation field'']]
      else [])"

text \<open>Lines 140 to 152: characters of the label field.\<close>

definition label_characters :: "string \<Rightarrow> nat \<Rightarrow> string \<Rightarrow> string \<Rightarrow> Issue list" where
  "label_characters fp ln statement label =
     concat (map (\<lambda>(column, c).
         if c \<notin> set '' 0123456789''
         then [Issue fp ln [column + 1] statement
                [''label field contains'', ''illegal character''] True [''try removing'']]
         else [])
       (enumerate 0 label))"

text \<open>
  Lines 154 to 188: duplicate and badly ordered labels. \<^verbatim>\<open>int(label)\<close> is evaluated
  first, in the test of the inner \<^verbatim>\<open>if\<close>; the assignment of line 188 follows the
  \<^verbatim>\<open>if\<close>/\<^verbatim>\<open>elif\<close> and runs in each of its three cases.
\<close>

definition label_declaration ::
  "string \<Rightarrow> nat \<Rightarrow> string \<Rightarrow> string \<Rightarrow> labels \<Rightarrow> Issue list \<times> (error + labels)" where
  "label_declaration fp ln statement label labels =
     (if strip label \<noteq> [] \<and> isdigit (strip label) then
        (case py_int label of
           Inl e \<Rightarrow> ([], Inl e)
         | Inr L \<Rightarrow>
             ((case map_of labels L of
                 Some declared \<Rightarrow>
                   [Issue fp ln [1, 2, 3, 4, 5] statement
                     [''duplicate label'', ''already defined on line '' @ str_nat declared]
                     True [''try relabelling'']]
               | None \<Rightarrow>
                   if length labels \<ge> 1 \<and> L < Max (set (map fst labels))
                   then [Issue fp ln [1, 2, 3, 4, 5] statement
                          [''badly ordered labels'',
                           ''previous was '' @ str_int (Max (set (map fst labels)))]
                          False [''label statements sequentially'']]
                   else []),
              Inr (AList.update L ln labels)))
      else ([], Inr labels))"

text \<open>Lines 191 to 203: the continuation field.\<close>

definition continuation_character :: "string \<Rightarrow> nat \<Rightarrow> string \<Rightarrow> string \<Rightarrow> Issue list" where
  "continuation_character fp ln statement continuation =
     (if strip continuation \<noteq> [] \<and> \<not> str_in (strip continuation) ''*!23456789''
      then [Issue fp ln [6] statement
             [''continuation field contains'', ''illegal character''] False
             [''use ! or * to denote a continuation statement'']]
      else [])"

text \<open>Lines 206 to 217: characters of \<^verbatim>\<open>sequence.strip()\<close>, counted from its start.\<close>

definition sequence_characters :: "string \<Rightarrow> nat \<Rightarrow> string \<Rightarrow> string \<Rightarrow> Issue list" where
  "sequence_characters fp ln statement sequence =
     concat (map (\<lambda>(column, c).
         if c \<notin> set ''0123456789''
         then [Issue fp ln [73 + column] statement
                [''sequence field contains'', ''illegal character''] False [''try removing'']]
         else [])
       (enumerate 0 (strip sequence)))"

text \<open>Lines 219 to 228: a sequence field that starts with a space.\<close>

definition sequence_justified :: "string \<Rightarrow> nat \<Rightarrow> string \<Rightarrow> string \<Rightarrow> Issue list" where
  "sequence_justified fp ln statement sequence =
     (if sequence \<noteq> [] \<and> startswith sequence '' ''
      then [Issue fp ln [73, 74, 75, 76, 77, 78, 79, 80] statement
             [''consider left-justifying sequence field'', ''''] False []]
      else [])"

text \<open>
  Lines 230 to 243: sequence numbers. \<^verbatim>\<open>int(sequence.strip())\<close> is compared, the issue
  appended, and then \<^verbatim>\<open>int(sequence)\<close> assigned.
\<close>

definition sequence_number ::
  "string \<Rightarrow> nat \<Rightarrow> string \<Rightarrow> string \<Rightarrow> int \<Rightarrow> Issue list \<times> (error + int)" where
  "sequence_number fp ln statement sequence sequencing =
     (if sequence \<noteq> [] \<and> isdigit (strip sequence) then
        (case py_int (strip sequence) of
           Inl e \<Rightarrow> ([], Inl e)
         | Inr S \<Rightarrow>
             (let appended =
                (if S \<le> sequencing
                 then [Issue fp ln [73, 74, 75, 76, 77, 78, 79, 80] statement
                        [''decreasing sequence number'', ''''] False
                        [''number punchcards sequentially'']]
                 else [])
              in case py_int sequence of
                   Inl e \<Rightarrow> (appended, Inl e)
                 | Inr S' \<Rightarrow> (appended, Inr S')))
      else ([], Inr sequencing))"

text \<open>
  One iteration, lines 92 to 243, for the statement on line \<open>ln\<close>: the issues it
  appends, and the exception it raises or the values of \<^verbatim>\<open>labels\<close> and \<^verbatim>\<open>sequencing\<close>
  it ends with.
\<close>

definition validate_statement ::
  "string \<Rightarrow> nat \<Rightarrow> string \<Rightarrow> labels \<Rightarrow> int \<Rightarrow> Issue list \<times> (error + labels \<times> int)" where
  "validate_statement fp ln statement labels sequencing =
     (let issues1 = illegal_characters fp ln statement @ column_limit fp ln statement in
      if startswith statement ''C'' then (issues1, Inr (labels, sequencing))
      else
        let label = take 5 statement;
            continuation = take 1 (drop 5 statement);
            expression = take 66 (drop 6 statement);
            sequence = take 8 (drop 72 statement);
            issues2 = issues1 @ label_characters fp ln statement label
        in case label_declaration fp ln statement label labels of
             (appended, Inl e) \<Rightarrow> (issues2 @ appended, Inl e)
           | (appended, Inr labels') \<Rightarrow>
               (let issues3 = issues2 @ appended
                      @ continuation_character fp ln statement continuation
                      @ sequence_characters fp ln statement sequence
                      @ sequence_justified fp ln statement sequence
                in case sequence_number fp ln statement sequence sequencing of
                     (appended', Inl e) \<Rightarrow> (issues3 @ appended', Inl e)
                   | (appended', Inr sequencing') \<Rightarrow>
                       (issues3 @ appended', Inr (labels', sequencing'))))"

text \<open>
  The loop of line 91 over \<^verbatim>\<open>enumerate(statements)\<close>, \<open>n\<close> being the index reached, and
  lines 87 to 90 before it. An exception ends the run.
\<close>

fun validate_loop ::
  "string \<Rightarrow> nat \<Rightarrow> string list \<Rightarrow> Issue list \<Rightarrow> labels \<Rightarrow> int
     \<Rightarrow> Issue list \<times> (error + labels \<times> int)" where
  "validate_loop fp n [] issues labels sequencing = (issues, Inr (labels, sequencing))"
| "validate_loop fp n (statement # statements) issues labels sequencing =
     (case validate_statement fp (n + 1) statement labels sequencing of
        (appended, Inl e) \<Rightarrow> (issues @ appended, Inl e)
      | (appended, Inr (labels', sequencing')) \<Rightarrow>
          validate_loop fp (n + 1) statements (issues @ appended) labels' sequencing')"

definition validate :: "string \<Rightarrow> string list \<Rightarrow> Issue list \<times> (error + labels \<times> int)" where
  "validate fp statements = validate_loop fp 0 statements [] [] (- 1)"

text \<open>
  Lines 245 to 249: what the run prints, one string for each \<^verbatim>\<open>print\<close>, or the exception
  that ends it. Nothing is printed before the loop is over.
\<close>

fun print_issues :: "Issue list \<Rightarrow> error + string list" where
  "print_issues [] = Inr []"
| "print_issues (issue # issues) =
     (case str_Issue issue of
        Inl e \<Rightarrow> Inl e
      | Inr text \<Rightarrow>
          (case print_issues issues of Inl e \<Rightarrow> Inl e | Inr printed \<Rightarrow> Inr (text # printed)))"

definition main :: "string \<Rightarrow> string list \<Rightarrow> error + string list" where
  "main fp statements =
     (case validate fp statements of
        (issues, Inl e) \<Rightarrow> Inl e
      | (issues, Inr final) \<Rightarrow>
          if length issues \<le> 0 then Inr [''No suggestions!''] else print_issues issues)"

text \<open>
  Lines 84 and 85, on the text that \<^verbatim>\<open>fh.read()\<close> returns, and the script from there
  to its end.
\<close>

definition read_statements :: "string \<Rightarrow> string list" where
  "read_statements text = str_split (CHR 0x0A) (strip text)"

definition script :: "string \<Rightarrow> string \<Rightarrow> error + string list" where
  "script fp text = main fp (read_statements text)"



text \<open>
  The words of the specification: a field is purely numeric when it is a non-empty
  run of the ten ASCII digits, and then \<^const>\<open>decimal_value\<close> is its integer value.
\<close>

definition numeric :: "string \<Rightarrow> bool" where
  "numeric s = (s \<noteq> [] \<and> list_all decimal s)"

text \<open>
  The permitted characters as the specification lists them: the digits, the space, the
  upper-case letters and ten symbols.
\<close>

definition alphabet :: string where
  "alphabet = ''0123456789 ABCDEFGHIJKLMNOPQRSTUVWXYZ=-+.)$*/,(''"

text \<open>
  Of the code points below 256, those on which \<^verbatim>\<open>strip\<close> and \<^verbatim>\<open>isdigit\<close> agree with
  \<^verbatim>\<open>int\<close>: all but the separators U+001C to U+001F and the superscripts U+00B2, U+00B3
  and U+00B9. An issue that \<^const>\<open>str_Issue\<close> can print has a first column and two
  details.
\<close>

definition plain :: "char \<Rightarrow> bool" where
  "plain c = ((of_char c :: nat) \<notin> set [28, 29, 30, 31, 178, 179, 185])"

definition printable :: "Issue \<Rightarrow> bool" where
  "printable d = (self_cols d \<noteq> [] \<and> 2 \<le> length (self_details d))"

section \<open>The issues of one statement\<close>

text \<open>
  What one iteration appends and how it ends, in terms of the blocks.
\<close>

lemma validate_statement_fst:
  "fst (validate_statement fp ln statement labels sequencing) =
     illegal_characters fp ln statement @ column_limit fp ln statement @
     (if startswith statement ''C'' then []
      else label_characters fp ln statement (take 5 statement)
        @ fst (label_declaration fp ln statement (take 5 statement) labels)
        @ (case snd (label_declaration fp ln statement (take 5 statement) labels) of
             Inl e \<Rightarrow> []
           | Inr labels' \<Rightarrow>
               continuation_character fp ln statement (take 1 (drop 5 statement))
               @ sequence_characters fp ln statement (take 8 (drop 72 statement))
               @ sequence_justified fp ln statement (take 8 (drop 72 statement))
               @ fst (sequence_number fp ln statement (take 8 (drop 72 statement)) sequencing)))"
  by (simp add: validate_statement_def Let_def split: prod.splits sum.splits)

lemma validate_statement_snd:
  "snd (validate_statement fp ln statement labels sequencing) =
     (if startswith statement ''C'' then Inr (labels, sequencing)
      else case snd (label_declaration fp ln statement (take 5 statement) labels) of
             Inl e \<Rightarrow> Inl e
           | Inr labels' \<Rightarrow>
               (case snd (sequence_number fp ln statement (take 8 (drop 72 statement)) sequencing) of
                  Inl e \<Rightarrow> Inl e
                | Inr sequencing' \<Rightarrow> Inr (labels', sequencing')))"
  by (simp add: validate_statement_def Let_def split: prod.splits sum.splits)

text \<open>The loops over \<^verbatim>\<open>enumerate\<close> append one issue for each offending pair.\<close>

lemma enumerate_issues:
  "concat (map (\<lambda>(column, c). if P c then [f column] else []) (enumerate n s)) =
     map (\<lambda>(column, c). f column) (filter (\<lambda>(column, c). P c) (enumerate n s))"
  by (induction s arbitrary: n) auto

lemma enumerate_column:
  "filter (\<lambda>x. P (snd x) \<and> fst x = i) (enumerate n s) =
     (if n \<le> i \<and> i < n + length s \<and> P (s ! (i - n)) then [(i, s ! (i - n))] else [])"
proof (induction s arbitrary: n)
  case Nil
  show ?case by simp
next
  case (Cons x xs)
  show ?case
    using Cons.IH [of "Suc n"] by (auto simp: nth_Cons' Suc_diff_le)
qed

text \<open>\<^const>\<open>CHARSET\<close> holds the hyphen twice and is the alphabet of the specification.\<close>

lemma alphabet_CHARSET: "set CHARSET = set alphabet"
  by code_simp

lemma alphabet_47: "distinct alphabet \<and> length alphabet = 47"
  by code_simp

text \<open>Each block appends issues with details of its own.\<close>

lemma illegal_characters_details:
  "d \<in> set (illegal_characters fp ln s) \<Longrightarrow>
     self_details d = [''statement contains'', ''illegal character'']"
  by (auto simp: illegal_characters_def enumerate_issues)

lemma column_limit_details:
  "d \<in> set (column_limit fp ln s) \<Longrightarrow>
     self_details d = [''statement exceeds 80 column limit'', '''']"
  by (auto simp: column_limit_def split: if_splits)

lemma label_characters_details:
  "d \<in> set (label_characters fp ln s l) \<Longrightarrow>
     self_details d = [''label field contains'', ''illegal character'']"
  by (auto simp: label_characters_def enumerate_issues)

lemma label_declaration_details:
  "d \<in> set (fst (label_declaration fp ln s l labels)) \<Longrightarrow>
     hd (self_details d) = ''duplicate label'' \<or> hd (self_details d) = ''badly ordered labels''"
  by (auto simp: label_declaration_def split: if_splits sum.splits option.splits)

lemma continuation_character_details:
  "d \<in> set (continuation_character fp ln s c) \<Longrightarrow>
     self_details d = [''continuation field contains'', ''illegal character'']"
  by (auto simp: continuation_character_def split: if_splits)

lemma sequence_characters_details:
  "d \<in> set (sequence_characters fp ln s q) \<Longrightarrow>
     self_details d = [''sequence field contains'', ''illegal character'']"
  by (auto simp: sequence_characters_def enumerate_issues)

lemma sequence_justified_details:
  "d \<in> set (sequence_justified fp ln s q) \<Longrightarrow>
     self_details d = [''consider left-justifying sequence field'', '''']"
  by (auto simp: sequence_justified_def split: if_splits)

lemma sequence_number_details:
  "d \<in> set (fst (sequence_number fp ln s q sequencing)) \<Longrightarrow>
     self_details d = [''decreasing sequence number'', '''']"
  by (auto simp: sequence_number_def Let_def split: if_splits sum.splits)

lemma illegal_characters_column:
  "i < length s \<Longrightarrow>
   filter (\<lambda>d. self_cols d = [i + 1] \<and> self_details d = [''statement contains'', ''illegal character''])
     (illegal_characters fp ln s) =
   (if s ! i \<in> set CHARSET then []
    else [Issue fp ln [i + 1] s [''statement contains'', ''illegal character''] True [''try removing'']])"
  by (simp add: illegal_characters_def enumerate_issues filter_map o_def case_prod_beta
        enumerate_column [of "\<lambda>c. c \<notin> set CHARSET"])

lemma illegal_characters_member:
  assumes "i < length s" "s ! i \<notin> set CHARSET"
  shows "Issue fp ln [i + 1] s [''statement contains'', ''illegal character''] True [''try removing'']
           \<in> set (illegal_characters fp ln s)"
proof -
  let ?d = "Issue fp ln [i + 1] s [''statement contains'', ''illegal character''] True [''try removing'']"
  have "?d \<in> set (filter (\<lambda>d. self_cols d = [i + 1]
            \<and> self_details d = [''statement contains'', ''illegal character''])
          (illegal_characters fp ln s))"
    using illegal_characters_column [OF assms(1), of fp ln] assms(2) by simp
  then show ?thesis by simp
qed

lemma sequence_justified_member:
  "(Issue fp ln [73, 74, 75, 76, 77, 78, 79, 80] statement
      [''consider left-justifying sequence field'', ''''] False []
      \<in> set (sequence_justified fp ln statement (take 8 (drop 72 statement))))
   = (72 < length statement \<and> statement ! 72 = CHR '' '')"
proof (cases "72 < length statement")
  case True
  then have "take 1 (take 8 (drop 72 statement)) = [statement ! 72]"
    by (simp add: take_Suc_conv_app_nth [of 0, simplified] hd_drop_conv_nth take_Suc)
  with True show ?thesis
    by (auto simp: sequence_justified_def startswith_def)
next
  case False
  then show ?thesis by (simp add: sequence_justified_def)
qed

lemma startswith_C: "startswith s ''C'' = (s \<noteq> [] \<and> hd s = CHR ''C'')"
  by (cases s) (auto simp: startswith_def)

section \<open>Stripping and integers\<close>

text \<open>
  Stripping is determined by what it leaves: a non-empty string whose first and last
  characters stay, between two runs of characters that go.
\<close>

lemma dropWhile_hd: "xs \<noteq> [] \<Longrightarrow> \<not> P (hd xs) \<Longrightarrow> dropWhile P xs = xs"
  by (cases xs) auto

lemma strip_unique:
  assumes "xs \<noteq> []" "\<not> P (hd xs)" "\<not> P (last xs)" "list_all P w1" "list_all P w2"
  shows "rev (dropWhile P (rev (dropWhile P (w1 @ xs @ w2)))) = xs"
proof -
  have "dropWhile P (w1 @ xs @ w2) = dropWhile P (xs @ w2)"
    using assms(4) by (simp add: dropWhile_append2 list_all_iff)
  also have "\<dots> = xs @ w2"
    using assms(1,2) by (simp add: dropWhile_hd)
  finally have front: "dropWhile P (w1 @ xs @ w2) = xs @ w2" .
  have "dropWhile P (rev w2 @ rev xs) = dropWhile P (rev xs)"
    by (rule dropWhile_append2) (use assms(5) in \<open>auto simp: list_all_iff\<close>)
  then have "dropWhile P (rev (xs @ w2)) = dropWhile P (rev xs)"
    by simp
  also have "\<dots> = rev xs"
    using assms(1,3) by (simp add: dropWhile_hd hd_rev)
  finally show ?thesis
    by (simp add: front)
qed

lemma strip_decomposition:
  "\<exists>w1 w2. s = w1 @ rev (dropWhile P (rev (dropWhile P s))) @ w2 \<and> list_all P w1 \<and> list_all P w2"
proof -
  let ?u = "dropWhile P s"
  have 1: "s = takeWhile P s @ ?u" by simp
  have 2: "?u = rev (dropWhile P (rev ?u)) @ rev (takeWhile P (rev ?u))"
    by (metis rev_append rev_rev_ident takeWhile_dropWhile_id)
  have 3: "list_all P (takeWhile P s)" "list_all P (rev (takeWhile P (rev ?u)))"
    by (auto simp: list_all_iff dest: set_takeWhileD)
  from 1 2 have "s = takeWhile P s @ rev (dropWhile P (rev ?u)) @ rev (takeWhile P (rev ?u))"
    by metis
  with 3 show ?thesis by blast
qed

lemma int_space_isspace: "int_space c \<Longrightarrow> isspace c"
  by (auto simp: int_space_def isspace_def)

lemma decimal_not_space: "decimal c \<Longrightarrow> \<not> isspace c \<and> \<not> int_space c"
  by (auto simp: decimal_def isspace_def int_space_def)

lemma sign_not_space: "\<not> isspace (CHR ''+'') \<and> \<not> isspace (CHR ''-'')"
  by (simp add: isspace_def)

lemma decimal_isdigit_char: "decimal c \<Longrightarrow> isdigit_char c"
  by (auto simp: decimal_def isdigit_char_def)

lemma isdigit_char_literal: "isdigit_char c \<Longrightarrow> decimal c \<or> c = CHR ''_'' \<Longrightarrow> decimal c"
  by (auto simp: isdigit_char_def)

lemma isdigit_char_no_sign: "isdigit_char c \<Longrightarrow> c \<noteq> CHR ''+'' \<and> c \<noteq> CHR ''-''"
  by (auto simp: isdigit_char_def)

lemma numeric_isdigit: "numeric s \<Longrightarrow> s \<noteq> [] \<and> isdigit s"
  by (auto simp: numeric_def isdigit_def list_all_iff decimal_isdigit_char)

lemma int_literal_ends:
  "int_literal r = Inr v \<Longrightarrow> r \<noteq> [] \<and> decimal (hd r) \<and> decimal (last r)"
  by (auto simp: int_literal_def split: if_splits)

lemma str_in_subset: "str_in x s \<Longrightarrow> set x \<subseteq> set s"
proof (induction s)
  case Nil
  then show ?case by simp
next
  case (Cons c s)
  then show ?case
    by (auto dest: in_set_takeD) (metis in_set_takeD set_ConsD)+
qed

text \<open>
  Where \<^verbatim>\<open>int\<close> returns, it has stripped what \<^verbatim>\<open>strip\<close> strips; under the guard
  \<^verbatim>\<open>isdigit\<close> the field, one of code points below 256, is then purely numeric and the
  result is its value.
\<close>

lemma py_int_ends:
  assumes "py_int s = Inr v"
  shows "int_strip s \<noteq> [] \<and> \<not> isspace (hd (int_strip s)) \<and> \<not> isspace (last (int_strip s))"
proof (cases "int_strip s")
  case Nil
  with assms show ?thesis by (simp add: py_int_def)
next
  case (Cons c r)
  consider "c = CHR ''+''" | "c = CHR ''-''" | "c \<noteq> CHR ''+''" "c \<noteq> CHR ''-''" by blast
  then show ?thesis
  proof cases
    case 1
    with assms Cons have "int_literal r = Inr v" by (simp add: py_int_def)
    from int_literal_ends [OF this] show ?thesis
      using Cons 1 by (simp add: decimal_not_space sign_not_space)
  next
    case 2
    with assms Cons obtain v' where "int_literal r = Inr v'"
      by (cases "int_literal r") (auto simp: py_int_def)
    from int_literal_ends [OF this] show ?thesis
      using Cons 2 by (simp add: decimal_not_space sign_not_space)
  next
    case 3
    with assms Cons have "int_literal (c # r) = Inr v" by (simp add: py_int_def)
    from int_literal_ends [OF this] show ?thesis
      using Cons by (simp add: decimal_not_space)
  qed
qed

lemma py_int_strip:
  assumes "py_int s = Inr v"
  shows "int_strip s = strip s"
proof -
  obtain w1 w2 where s: "s = w1 @ int_strip s @ w2" and w: "list_all int_space w1" "list_all int_space w2"
    using strip_decomposition [of s int_space] unfolding int_strip_def by blast
  from w have w': "list_all isspace w1" "list_all isspace w2"
    by (auto simp: list_all_iff int_space_isspace)
  from py_int_ends [OF assms] have e: "int_strip s \<noteq> []" "\<not> isspace (hd (int_strip s))"
    "\<not> isspace (last (int_strip s))" by auto
  have "strip (w1 @ int_strip s @ w2) = int_strip s"
    unfolding strip_def using e w' by (rule strip_unique)
  with s show ?thesis by simp
qed

lemma py_int_isdigit:
  assumes "py_int s = Inr v" "isdigit (strip s)"
  shows "numeric (strip s) \<and> v = int (decimal_value (strip s))"
proof -
  from assms(2) obtain c r where t: "strip s = c # r" and d: "list_all isdigit_char (c # r)"
    by (cases "strip s") (auto simp: isdigit_def)
  from d have "c \<noteq> CHR ''+''" "c \<noteq> CHR ''-''"
    using isdigit_char_no_sign [of c] by auto
  with assms(1) t have lit: "int_literal (strip s) = Inr v"
    by (simp add: py_int_def py_int_strip [OF assms(1)])
  then have "list_all (\<lambda>c. decimal c \<or> c = CHR ''_'') (strip s)"
    by (auto simp: int_literal_def split: if_splits)
  with d t have all: "list_all decimal (strip s)"
    by (auto simp: list_all_iff dest: isdigit_char_literal)
  then have "filter decimal (strip s) = strip s"
    by (simp add: list_all_iff)
  with lit all t show ?thesis
    by (auto simp: int_literal_def numeric_def split: if_splits)
qed

lemma py_int_padded:
  assumes "numeric t" "list_all int_space w1" "list_all int_space w2"
  shows "py_int (w1 @ t @ w2) = Inr (int (decimal_value t))"
proof -
  from assms(1) obtain c r where t: "t = c # r" and d: "list_all decimal (c # r)"
    by (cases t) (auto simp: numeric_def)
  from d t have ends: "decimal (hd t)" "decimal (last t)"
    by (auto simp: list_all_iff)
  have "rev (dropWhile int_space (rev (dropWhile int_space (w1 @ t @ w2)))) = t"
    using t ends assms(2,3) by (intro strip_unique) (auto simp: decimal_not_space)
  then have s: "int_strip (w1 @ t @ w2) = t" by (simp add: int_strip_def)
  have "CHR ''_'' \<notin> set t" using d t by (auto simp: list_all_iff decimal_def)
  then have u: "\<not> str_in ''__'' t" using str_in_subset [of "''__''" t] by auto
  have f: "filter decimal t = t" using d t by (simp add: list_all_iff)
  have sign: "c \<noteq> CHR ''+''" "c \<noteq> CHR ''-''" using d by (auto simp: decimal_def)
  have "int_literal t = Inr (int (decimal_value t))"
    using t d ends u f by (auto simp: int_literal_def list_all_iff)
  with s t sign show ?thesis by (simp add: py_int_def)
qed

lemma py_int_numeric:
  assumes "numeric t"
  shows "py_int t = Inr (int (decimal_value t))"
  using py_int_padded [OF assms, of "[]" "[]"] by simp

text \<open>The two blocks that call \<^verbatim>\<open>int\<close>.\<close>

lemma label_declaration_numeric:
  assumes "numeric (strip l)" "py_int l = Inr L"
  shows "label_declaration fp ln s l labels =
     ((case map_of labels L of
         Some declared \<Rightarrow>
           [Issue fp ln [1, 2, 3, 4, 5] s
             [''duplicate label'', ''already defined on line '' @ str_nat declared]
             True [''try relabelling'']]
       | None \<Rightarrow>
           if length labels \<ge> 1 \<and> L < Max (set (map fst labels))
           then [Issue fp ln [1, 2, 3, 4, 5] s
                  [''badly ordered labels'',
                   ''previous was '' @ str_int (Max (set (map fst labels)))]
                  False [''label statements sequentially'']]
           else []),
      Inr (AList.update L ln labels))"
  using assms numeric_isdigit [OF assms(1)] by (simp add: label_declaration_def)

lemma label_declaration_unchanged:
  assumes "snd (label_declaration fp ln s l labels) = Inr labels'" "\<not> numeric (strip l)"
  shows "labels' = labels"
proof (cases "strip l \<noteq> [] \<and> isdigit (strip l)")
  case True
  with assms(1) obtain L where "py_int l = Inr L"
    by (cases "py_int l") (auto simp: label_declaration_def)
  from py_int_isdigit [OF this] True assms(2) show ?thesis by simp
next
  case False
  with assms(1) show ?thesis by (auto simp: label_declaration_def)
qed

lemma sequence_number_Inr:
  assumes "sequence_number fp ln s q sequencing = (appended, Inr S')"
  shows "if numeric (strip q)
         then S' = int (decimal_value (strip q))
            \<and> appended =
                (if int (decimal_value (strip q)) \<le> sequencing
                 then [Issue fp ln [73, 74, 75, 76, 77, 78, 79, 80] s
                        [''decreasing sequence number'', ''''] False
                        [''number punchcards sequentially'']]
                 else [])
         else S' = sequencing \<and> appended = []"
proof (cases "q \<noteq> [] \<and> isdigit (strip q)")
  case True
  with assms obtain S where S: "py_int (strip q) = Inr S"
    by (cases "py_int (strip q)") (auto simp: sequence_number_def)
  with assms True have S': "py_int q = Inr S'"
    by (cases "py_int q") (auto simp: sequence_number_def Let_def)
  from py_int_isdigit [OF S'] True
  have n: "numeric (strip q)" and v: "S' = int (decimal_value (strip q))" by auto
  from py_int_numeric [OF n] S have "S = int (decimal_value (strip q))" by simp
  with assms True S S' n v show ?thesis
    by (auto simp: sequence_number_def Let_def)
next
  case False
  have "\<not> numeric (strip q)"
  proof
    assume "numeric (strip q)"
    from numeric_isdigit [OF this] False show False by (auto simp: strip_def)
  qed
  with assms False show ?thesis by (auto simp: sequence_number_def)
qed

section \<open>Statements that raise nothing\<close>

text \<open>
  On statements of plain characters, all of them code points below 256, every \<^verbatim>\<open>int\<close>
  returns, so the loop reaches the end of the input; and every issue the loop appends
  can be printed. So the script raises nothing on such input. Nothing is said here of
  the code points from 256 on.
\<close>

lemma plain_space: "plain c \<Longrightarrow> isspace c \<Longrightarrow> int_space c"
  by (auto simp: plain_def isspace_def int_space_def)

lemma plain_digit:
  assumes "plain c" "isdigit_char c"
  shows "decimal c"
proof -
  from assms have "(of_char c :: nat) \<in> set [48, 49, 50, 51, 52, 53, 54, 55, 56, 57]"
    by (auto simp: plain_def isdigit_char_def)
  then have "(of_char c :: nat) \<in> of_char ` set ''0123456789''"
    by simp
  then show ?thesis
    unfolding decimal_def by (metis imageE of_char_eq_iff)
qed

lemma strip_subset: "set (strip s) \<subseteq> set s"
  unfolding strip_def by (metis set_rev set_dropWhileD subsetI)

lemma py_int_plain:
  assumes "list_all plain s" "isdigit (strip s)"
  shows "py_int s = Inr (int (decimal_value (strip s)))"
proof -
  define t where "t = strip s"
  obtain w1 w2 where s: "s = w1 @ t @ w2" and w: "list_all isspace w1" "list_all isspace w2"
    using strip_decomposition [of s isspace] unfolding strip_def t_def by blast
  have "set w1 \<subseteq> set s" "set w2 \<subseteq> set s"
    unfolding s by auto
  with assms(1) w have w': "list_all int_space w1" "list_all int_space w2"
    by (auto simp: list_all_iff plain_space)
  have n: "numeric t"
    using assms strip_subset [of s]
    by (auto simp: t_def numeric_def isdigit_def list_all_iff plain_digit)
  have "py_int s = py_int (w1 @ t @ w2)"
    by (subst s) (rule refl)
  with py_int_padded [OF n w'] show ?thesis
    by (simp add: t_def)
qed

lemma label_declaration_plain:
  assumes "list_all plain l"
  shows "\<exists>labels'. snd (label_declaration fp ln s l labels) = Inr labels'"
  using py_int_plain [OF assms] by (simp add: label_declaration_def)

lemma sequence_number_plain:
  assumes "list_all plain q"
  shows "\<exists>sequencing'. snd (sequence_number fp ln s q sequencing) = Inr sequencing'"
proof (cases "q \<noteq> [] \<and> isdigit (strip q)")
  case True
  then have n: "numeric (strip q)"
    using assms strip_subset [of q] by (auto simp: numeric_def isdigit_def list_all_iff plain_digit)
  from True py_int_plain [OF assms] py_int_numeric [OF n] show ?thesis
    by (simp add: sequence_number_def Let_def)
next
  case False
  then show ?thesis by (auto simp: sequence_number_def)
qed

lemma validate_statement_plain:
  assumes "list_all plain statement"
  shows "\<exists>final. snd (validate_statement fp ln statement labels sequencing) = Inr final"
proof -
  from assms have l: "list_all plain (take 5 statement)"
    and q: "list_all plain (take 8 (drop 72 statement))"
    by (auto simp: list_all_iff dest: in_set_takeD in_set_dropD)
  from label_declaration_plain [OF l] sequence_number_plain [OF q] show ?thesis
    by (auto simp: validate_statement_snd split: sum.splits) (metis Inl_Inr_False)+
qed

lemma validate_loop_plain:
  assumes "list_all (list_all plain) statements"
  shows "\<exists>final. snd (validate_loop fp n statements issues labels sequencing) = Inr final"
  using assms
proof (induction statements arbitrary: n issues labels sequencing)
  case Nil
  show ?case by simp
next
  case (Cons statement statements)
  then have "list_all plain statement" and rest: "list_all (list_all plain) statements" by auto
  from validate_statement_plain [OF this(1)]
  obtain appended labels' sequencing' where
    "validate_statement fp (n + 1) statement labels sequencing =
       (appended, Inr (labels', sequencing'))"
    by (metis prod.collapse)
  with Cons.IH [OF rest] show ?case by simp
qed

lemma print_issues_printable:
  "list_all printable issues \<Longrightarrow> \<exists>printed. print_issues issues = Inr printed"
  by (induction issues) (auto simp: printable_def str_Issue_def Let_def)

lemma validate_statement_printable:
  "list_all printable (fst (validate_statement fp ln statement labels sequencing))"
proof -
  have 1: "list_all printable (illegal_characters fp ln s)" for s
    by (auto simp: illegal_characters_def enumerate_issues list_all_iff printable_def)
  have 2: "list_all printable (column_limit fp ln s)" for s
    by (auto simp: column_limit_def printable_def)
  have 3: "list_all printable (label_characters fp ln s l)" for s l
    by (auto simp: label_characters_def enumerate_issues list_all_iff printable_def)
  have 4: "list_all printable (fst (label_declaration fp ln s l labels))" for s l
    by (auto simp: label_declaration_def printable_def split: sum.splits option.splits)
  have 5: "list_all printable (continuation_character fp ln s c)" for s c
    by (auto simp: continuation_character_def printable_def)
  have 6: "list_all printable (sequence_characters fp ln s q)" for s q
    by (auto simp: sequence_characters_def enumerate_issues list_all_iff printable_def)
  have 7: "list_all printable (sequence_justified fp ln s q)" for s q
    by (auto simp: sequence_justified_def printable_def)
  have 8: "list_all printable (fst (sequence_number fp ln s q sequencing))" for s q
    by (auto simp: sequence_number_def Let_def printable_def split: sum.splits)
  show ?thesis
    by (simp add: validate_statement_fst 1 2 3 4 5 6 7 8 split: sum.splits)
qed

lemma validate_loop_printable:
  "list_all printable issues \<Longrightarrow>
   list_all printable (fst (validate_loop fp n statements issues labels sequencing))"
proof (induction statements arbitrary: n issues labels sequencing)
  case Nil
  then show ?case by simp
next
  case (Cons statement statements)
  have p: "list_all printable (fst (validate_statement fp (n + 1) statement labels sequencing))"
    by (rule validate_statement_printable)
  show ?case
  proof (cases "validate_statement fp (n + 1) statement labels sequencing")
    case (Pair appended outcome)
    with p Cons.prems have a: "list_all printable (issues @ appended)" by simp
    show ?thesis
    proof (cases outcome)
      case (Inl e)
      with Pair a show ?thesis by simp
    next
      case (Inr final)
      with Pair a Cons.IH [OF a] show ?thesis by (cases final) simp
    qed
  qed
qed

lemma main_plain:
  assumes "list_all (list_all plain) statements"
  shows "\<exists>printed. main fp statements = Inr printed"
proof -
  obtain issues outcome where v: "validate fp statements = (issues, outcome)"
    by (cases "validate fp statements")
  from validate_loop_plain [OF assms, of fp 0 "[]" "[]" "- 1"] v
  obtain final where o: "outcome = Inr final" by (auto simp: validate_def)
  have "list_all printable issues"
    using validate_loop_printable [of "[]" fp 0 statements "[]" "- 1"] v
    by (simp add: validate_def)
  from print_issues_printable [OF this] v o show ?thesis
    by (auto simp: main_def)
qed

section \<open>Duplicate labels\<close>

text \<open>
  C1, as the specification states it: a non-comment line whose label is already a key
  of the label table gets the error "duplicate label" naming the line that first declared
  the label, and the table keeps that first line. The assignment of line 188 runs after
  the duplicate is reported, so the table moves to the duplicate's own line: of three
  lines labelled 10, the third is told that the label is defined on line 2.
\<close>

theorem relabel_overwrites:
  "read_statements (''10'' @ [CHR 0x0A] @ ''10'' @ [CHR 0x0A] @ ''10'') = [''10'', ''10'', ''10'']
   \<and> validate ''prog.f'' [''10'', ''10'', ''10''] =
       ([Issue ''prog.f'' 2 [1, 2, 3, 4, 5] ''10''
           [''duplicate label'', ''already defined on line 1''] True [''try relabelling''],
         Issue ''prog.f'' 3 [1, 2, 3, 4, 5] ''10''
           [''duplicate label'', ''already defined on line 2''] True [''try relabelling'']],
        Inr ([(10, 3)], - 1))"
  by code_simp

text \<open>
  C1, amended. For every non-comment line whose stripped label field is purely numeric,
  with \<^verbatim>\<open>int(label)\<close> = \<open>L\<close> a key of the label table: the line gets an error on columns
  1 to 5 with the details "duplicate label" and "already defined on line \<open>d\<close>", \<open>d\<close>
  being the line the table holds for \<open>L\<close>; and when the iteration ends without an
  exception the table holds the current line for \<open>L\<close>.
\<close>

theorem duplicate_label_reported:
  assumes "\<not> startswith statement ''C''"
      and "numeric (strip (take 5 statement))"
      and "py_int (take 5 statement) = Inr L"
      and "map_of labels L = Some declared"
  shows "Issue fp ln [1, 2, 3, 4, 5] statement
           [''duplicate label'', ''already defined on line '' @ str_nat declared]
           True [''try relabelling'']
           \<in> set (fst (validate_statement fp ln statement labels sequencing))
       \<and> L = int (decimal_value (strip (take 5 statement)))
       \<and> (snd (validate_statement fp ln statement labels sequencing) = Inr (labels', sequencing')
            \<longrightarrow> labels' = AList.update L ln labels \<and> map_of labels' L = Some ln)"
proof -
  note d = label_declaration_numeric [OF assms(2,3), of fp ln statement labels]
  have 1: "Issue fp ln [1, 2, 3, 4, 5] statement
           [''duplicate label'', ''already defined on line '' @ str_nat declared]
           True [''try relabelling'']
           \<in> set (fst (validate_statement fp ln statement labels sequencing))"
    using assms(1,4) by (simp add: validate_statement_fst d)
  have 2: "L = int (decimal_value (strip (take 5 statement)))"
    using py_int_isdigit [OF assms(3)] numeric_isdigit [OF assms(2)] by simp
  have 3: "labels' = AList.update L ln labels \<and> map_of labels' L = Some ln"
    if "snd (validate_statement fp ln statement labels sequencing) = Inr (labels', sequencing')"
    using that assms(1) by (auto simp: validate_statement_snd d update_conv' split: sum.splits)
  from 1 2 3 show ?thesis by blast
qed

theorem duplicate_label_reported_witness:
  "\<not> startswith ''   10 X = 1'' ''C''
   \<and> numeric (strip (take 5 ''   10 X = 1''))
   \<and> py_int (take 5 ''   10 X = 1'') = Inr 10
   \<and> map_of [(10, 4), (20, 5)] 10 = Some 4
   \<and> Issue ''prog.f'' 7 [1, 2, 3, 4, 5] ''   10 X = 1''
        [''duplicate label'', ''already defined on line 4''] True [''try relabelling'']
        \<in> set (fst (validate_statement ''prog.f'' 7 ''   10 X = 1'' [(10, 4), (20, 5)] (- 1)))
   \<and> snd (validate_statement ''prog.f'' 7 ''   10 X = 1'' [(10, 4), (20, 5)] (- 1)) =
        Inr ([(10, 7), (20, 5)], - 1)
   \<and> map_of [(10, 7), (20, 5)] 10 = Some 7"
proof -
  have h1: "\<not> startswith ''   10 X = 1'' ''C''" by code_simp
  have h2: "numeric (strip (take 5 ''   10 X = 1''))" by code_simp
  have h3: "py_int (take 5 ''   10 X = 1'') = Inr 10" by code_simp
  have h4: "map_of [(10, 4), (20, 5)] (10::int) = Some (4::nat)" by simp
  have h5: "snd (validate_statement ''prog.f'' 7 ''   10 X = 1'' [(10, 4), (20, 5)] (- 1)) =
        Inr ([(10, 7), (20, 5)], - 1)" by code_simp
  have s: "str_nat 4 = ''4''" by code_simp
  from duplicate_label_reported [OF h1 h2 h3 h4, of "''prog.f''" 7 "- 1" "[(10, 7), (20, 5)]" "- 1"]
    h1 h2 h3 h4 h5 s
  show ?thesis by simp
qed

section \<open>Exceptions\<close>

text \<open>
  C2. The claim: on every sequence of lines the validator ends normally, reports each
  malformed field as a diagnostic and raises nothing. The script guards each \<^verbatim>\<open>int\<close>
  with \<^verbatim>\<open>isdigit\<close>, which also accepts the superscript digits that \<^verbatim>\<open>int\<close> refuses.
  On the file whose only line is U+00B2 the loop appends two issues and then
  \<^verbatim>\<open>int(label)\<close> raises \<^verbatim>\<open>ValueError\<close>: the run ends with the exception and prints no
  diagnostic.
\<close>

theorem superscript_label_raises:
  "read_statements [CHR 0xB2] = [[CHR 0xB2]]
   \<and> validate ''prog.f'' [[CHR 0xB2]] =
       ([Issue ''prog.f'' 1 [1] [CHR 0xB2]
           [''statement contains'', ''illegal character''] True [''try removing''],
         Issue ''prog.f'' 1 [1] [CHR 0xB2]
           [''label field contains'', ''illegal character''] True [''try removing'']],
        Inl ValueError)
   \<and> main ''prog.f'' [[CHR 0xB2]] = Inl ValueError
   \<and> script ''prog.f'' [CHR 0xB2] = Inl ValueError
   \<and> script ''prog.f'' (''5'' @ [CHR 0x1C, CHR 0x0A] @ ''C'') = Inl ValueError"
  by code_simp

section \<open>The 80 column limit\<close>

text \<open>
  C3. The claim: a line longer than 80 columns once its trailing white space is removed
  gets one warning on columns 81 to that length. The script measures
  \<^verbatim>\<open>statement.strip()\<close>, which removes the leading blanks too. The second line below has
  an X in column 81 after six leading blanks: it is 81 columns long, 75 when stripped,
  and gets no issue at all.
\<close>

theorem leading_blanks_hide_overflow:
  "read_statements (''C'' @ [CHR 0x0A] @ replicate 6 CHR '' '' @ ''X = 1''
       @ replicate 61 CHR '' '' @ ''00000010X'') =
     [''C'', replicate 6 CHR '' '' @ ''X = 1'' @ replicate 61 CHR '' '' @ ''00000010X'']
   \<and> length (rev (dropWhile isspace
       (rev (replicate 6 CHR '' '' @ ''X = 1'' @ replicate 61 CHR '' '' @ ''00000010X'')))) = 81
   \<and> (replicate 6 CHR '' '' @ ''X = 1'' @ replicate 61 CHR '' '' @ ''00000010X'') ! 80 = CHR ''X''
   \<and> column_limit ''prog.f'' 2
       (replicate 6 CHR '' '' @ ''X = 1'' @ replicate 61 CHR '' '' @ ''00000010X'') = []
   \<and> validate ''prog.f''
       [''C'', replicate 6 CHR '' '' @ ''X = 1'' @ replicate 61 CHR '' '' @ ''00000010X''] =
       ([], Inr ([], 10))
   \<and> main ''prog.f''
       [''C'', replicate 6 CHR '' '' @ ''X = 1'' @ replicate 61 CHR '' '' @ ''00000010X''] =
       Inr [''No suggestions!'']"
  by code_simp

section \<open>The sequence field\<close>

text \<open>
  C4. The claim: each character of the sequence field that is no digit gets a warning on
  its own column of the line. The script counts the columns in \<^verbatim>\<open>sequence.strip()\<close>,
  so leading blanks in the field shift the report to the left: the A below stands in
  column 75 and is reported on column 73.
\<close>

theorem sequence_column_shifted:
  "read_statements (''1'' @ replicate 73 CHR '' '' @ ''A'') =
     [''1'' @ replicate 73 CHR '' '' @ ''A'']
   \<and> (''1'' @ replicate 73 CHR '' '' @ ''A'') ! 74 = CHR ''A''
   \<and> take 8 (drop 72 (''1'' @ replicate 73 CHR '' '' @ ''A'')) = ''  A''
   \<and> validate ''prog.f'' [''1'' @ replicate 73 CHR '' '' @ ''A''] =
       ([Issue ''prog.f'' 1 [73] (''1'' @ replicate 73 CHR '' '' @ ''A'')
           [''sequence field contains'', ''illegal character''] False [''try removing''],
         Issue ''prog.f'' 1 [73, 74, 75, 76, 77, 78, 79, 80]
           (''1'' @ replicate 73 CHR '' '' @ ''A'')
           [''consider left-justifying sequence field'', ''''] False []],
        Inr ([(1, 1)], - 1))"
  by code_simp

section \<open>The character set\<close>

text \<open>
  C5. On every statement, comment or not, and for each of its characters: when the
  character is none of the 47 permitted ones, the statement gets exactly one issue on
  exactly the 1-based column of the character with the details "statement contains" and
  "illegal character", and that issue is an error; when the character is permitted there
  is no such issue on its column.
\<close>

theorem illegal_character_reported:
  assumes "i < length statement"
  shows "filter (\<lambda>d. self_cols d = [i + 1]
                   \<and> self_details d = [''statement contains'', ''illegal character''])
           (fst (validate_statement fp ln statement labels sequencing)) =
         (if statement ! i \<in> set alphabet then []
          else [Issue fp ln [i + 1] statement
                 [''statement contains'', ''illegal character''] True [''try removing'']])
       \<and> distinct alphabet \<and> length alphabet = 47"
proof -
  let ?Q = "\<lambda>d. self_cols d = [Suc i]
                   \<and> self_details d = [''statement contains'', ''illegal character'']"
  have others: "filter ?Q xs = []"
    if "\<forall>d \<in> set xs. hd (self_details d) \<noteq> ''statement contains''" for xs
    using that by (fastforce simp: filter_empty_conv)
  have 1: "filter ?Q (column_limit fp ln statement) = []"
    by (rule others) (auto dest: column_limit_details)
  have 2: "filter ?Q (label_characters fp ln statement l) = []" for l
    by (rule others) (auto dest: label_characters_details)
  have 3: "filter ?Q (fst (label_declaration fp ln statement l labels)) = []" for l
    by (rule others) (auto dest: label_declaration_details)
  have 4: "filter ?Q (continuation_character fp ln statement c) = []" for c
    by (rule others) (auto dest: continuation_character_details)
  have 5: "filter ?Q (sequence_characters fp ln statement q) = []" for q
    by (rule others) (auto dest: sequence_characters_details)
  have 6: "filter ?Q (sequence_justified fp ln statement q) = []" for q
    by (rule others) (auto dest: sequence_justified_details)
  have 7: "filter ?Q (fst (sequence_number fp ln statement q sequencing)) = []" for q
    by (rule others) (auto dest: sequence_number_details)
  have "filter ?Q (fst (validate_statement fp ln statement labels sequencing)) =
          filter ?Q (illegal_characters fp ln statement)"
    unfolding validate_statement_fst
    by (simp add: 1 2 3 4 5 6 7 split: sum.splits)
  then show ?thesis
    using illegal_characters_column [OF assms, of fp ln]
    by (simp add: alphabet_CHARSET alphabet_47)
qed

theorem illegal_character_reported_witness:
  "filter (\<lambda>d. self_cols d = [13]
                   \<and> self_details d = [''statement contains'', ''illegal character''])
           (fst (validate_statement ''prog.f'' 3 ''      X = 1 a'' [] (- 1))) =
     [Issue ''prog.f'' 3 [13] ''      X = 1 a''
                 [''statement contains'', ''illegal character''] True [''try removing'']]
   \<and> filter (\<lambda>d. self_cols d = [7]
                   \<and> self_details d = [''statement contains'', ''illegal character''])
           (fst (validate_statement ''prog.f'' 3 ''      X = 1 a'' [] (- 1))) = []"
  using illegal_character_reported [of 12 "''      X = 1 a''" "''prog.f''" 3 "[]" "- 1"]
        illegal_character_reported [of 6 "''      X = 1 a''" "''prog.f''" 3 "[]" "- 1"]
  by (simp add: alphabet_def)

section \<open>The carried state\<close>

text \<open>
  What an iteration that returns leaves behind, for a non-comment line of code points
  below 256: when the stripped sequence field is purely numeric, \<^verbatim>\<open>sequencing\<close> is its
  integer value, and the warning "decreasing sequence number" is among the issues of the
  line exactly when that value is at most the previous \<^verbatim>\<open>sequencing\<close>; otherwise
  \<^verbatim>\<open>sequencing\<close> is unchanged; and when the stripped label field is not purely numeric,
  \<^verbatim>\<open>labels\<close> is unchanged.
\<close>

lemma carried_state:
  assumes "\<not> startswith statement ''C''"
      and "validate_statement fp ln statement labels sequencing =
             (issues, Inr (labels', sequencing'))"
  shows "(if numeric (strip (take 8 (drop 72 statement)))
          then sequencing' = int (decimal_value (strip (take 8 (drop 72 statement))))
             \<and> (Issue fp ln [73, 74, 75, 76, 77, 78, 79, 80] statement
                   [''decreasing sequence number'', ''''] False
                   [''number punchcards sequentially''] \<in> set issues)
               = (int (decimal_value (strip (take 8 (drop 72 statement)))) \<le> sequencing)
          else sequencing' = sequencing)
       \<and> (\<not> numeric (strip (take 5 statement)) \<longrightarrow> labels' = labels)"
proof -
  let ?q = "take 8 (drop 72 statement)"
  let ?l = "take 5 statement"
  let ?D = "Issue fp ln [73, 74, 75, 76, 77, 78, 79, 80] statement
              [''decreasing sequence number'', ''''] False [''number punchcards sequentially'']"
  from assms have s: "snd (validate_statement fp ln statement labels sequencing) =
      Inr (labels', sequencing')"
    and f: "fst (validate_statement fp ln statement labels sequencing) = issues" by simp_all
  from s assms(1) have l: "snd (label_declaration fp ln statement ?l labels) = Inr labels'"
    and q: "snd (sequence_number fp ln statement ?q sequencing) = Inr sequencing'"
    by (auto simp: validate_statement_snd split: sum.splits)
  from q obtain appended where q': "sequence_number fp ln statement ?q sequencing =
      (appended, Inr sequencing')"
    by (cases "sequence_number fp ln statement ?q sequencing") auto
  note n = sequence_number_Inr [OF q']
  have others: "?D \<notin> set (illegal_characters fp ln statement)"
    "?D \<notin> set (column_limit fp ln statement)"
    "?D \<notin> set (label_characters fp ln statement ?l)"
    "?D \<notin> set (fst (label_declaration fp ln statement ?l labels))"
    "?D \<notin> set (continuation_character fp ln statement (take 1 (drop 5 statement)))"
    "?D \<notin> set (sequence_characters fp ln statement ?q)"
    "?D \<notin> set (sequence_justified fp ln statement ?q)"
    by (auto dest: illegal_characters_details column_limit_details label_characters_details
          label_declaration_details continuation_character_details sequence_characters_details
          sequence_justified_details)
  have mem: "(?D \<in> set issues) = (?D \<in> set appended)"
    using f [symmetric] assms(1) l q' others by (simp add: validate_statement_fst)
  have 1: "labels' = labels" if "\<not> numeric (strip ?l)"
    using label_declaration_unchanged [OF l that] .
  show ?thesis
  proof (cases "numeric (strip ?q)")
    case True
    with n mem 1 show ?thesis by auto
  next
    case False
    with n 1 show ?thesis by auto
  qed
qed

lemma carried_state_example:
  "\<not> startswith (''   ab'' @ replicate 67 CHR '' '' @ ''00000005'') ''C''
   \<and> validate_statement ''prog.f'' 4 (''   ab'' @ replicate 67 CHR '' '' @ ''00000005'') [(10, 1)] 10 =
       ([Issue ''prog.f'' 4 [4] (''   ab'' @ replicate 67 CHR '' '' @ ''00000005'')
           [''statement contains'', ''illegal character''] True [''try removing''],
         Issue ''prog.f'' 4 [5] (''   ab'' @ replicate 67 CHR '' '' @ ''00000005'')
           [''statement contains'', ''illegal character''] True [''try removing''],
         Issue ''prog.f'' 4 [4] (''   ab'' @ replicate 67 CHR '' '' @ ''00000005'')
           [''label field contains'', ''illegal character''] True [''try removing''],
         Issue ''prog.f'' 4 [5] (''   ab'' @ replicate 67 CHR '' '' @ ''00000005'')
           [''label field contains'', ''illegal character''] True [''try removing''],
         Issue ''prog.f'' 4 [73, 74, 75, 76, 77, 78, 79, 80]
           (''   ab'' @ replicate 67 CHR '' '' @ ''00000005'')
           [''decreasing sequence number'', ''''] False [''number punchcards sequentially'']],
        Inr ([(10, 1)], 5))
   \<and> numeric (strip (take 8 (drop 72 (''   ab'' @ replicate 67 CHR '' '' @ ''00000005''))))
   \<and> int (decimal_value (strip (take 8 (drop 72 (''   ab'' @ replicate 67 CHR '' '' @ ''00000005''))))) = 5
   \<and> \<not> numeric (strip (take 5 (''   ab'' @ replicate 67 CHR '' '' @ ''00000005'')))"
proof -
  let ?W = "''   ab'' @ replicate 67 CHR '' '' @ ''00000005''"
  have h1: "\<not> startswith ?W ''C''" by code_simp
  have h2: "validate_statement ''prog.f'' 4 ?W [(10, 1)] 10 =
       ([Issue ''prog.f'' 4 [4] ?W
           [''statement contains'', ''illegal character''] True [''try removing''],
         Issue ''prog.f'' 4 [5] ?W
           [''statement contains'', ''illegal character''] True [''try removing''],
         Issue ''prog.f'' 4 [4] ?W
           [''label field contains'', ''illegal character''] True [''try removing''],
         Issue ''prog.f'' 4 [5] ?W
           [''label field contains'', ''illegal character''] True [''try removing''],
         Issue ''prog.f'' 4 [73, 74, 75, 76, 77, 78, 79, 80] ?W
           [''decreasing sequence number'', ''''] False [''number punchcards sequentially'']],
        Inr ([(10, 1)], 5))" by code_simp
  have h3: "numeric (strip (take 8 (drop 72 ?W)))" by code_simp
  have h4: "\<not> numeric (strip (take 5 ?W))" by code_simp
  from carried_state [OF h1 h2] h3 have "5 = int (decimal_value (strip (take 8 (drop 72 ?W))))"
    by simp
  with h1 h2 h3 h4 show ?thesis by simp
qed

text \<open>
  C6. The claim: on every non-comment line \<^verbatim>\<open>sequencing\<close> becomes the integer value of the
  sequence field exactly when the stripped field is non-empty and purely numeric, and
  fields that are not purely numeric leave \<^verbatim>\<open>labels\<close> and \<^verbatim>\<open>sequencing\<close> as they were.
  Line 231 compares \<^verbatim>\<open>int(sequence.strip())\<close>, line 243 assigns \<^verbatim>\<open>int(sequence)\<close>, of the
  field as it stands. On the line below the field is 5 followed by U+001C, which
  \<^verbatim>\<open>strip\<close> removes and \<^verbatim>\<open>int\<close> does not: the stripped field is 5, purely numeric, the
  comparison of line 231 is made, and line 243 raises \<^verbatim>\<open>ValueError\<close>. \<^verbatim>\<open>sequencing\<close> never
  becomes 5, and the run ends without a diagnostic.
\<close>

theorem sequence_separator_raises:
  "read_statements (''1'' @ replicate 71 CHR '' '' @ [CHR ''5'', CHR 0x1C, CHR 0x0A] @ ''C'') =
     [''1'' @ replicate 71 CHR '' '' @ [CHR ''5'', CHR 0x1C], ''C'']
   \<and> \<not> startswith (''1'' @ replicate 71 CHR '' '' @ [CHR ''5'', CHR 0x1C]) ''C''
   \<and> take 8 (drop 72 (''1'' @ replicate 71 CHR '' '' @ [CHR ''5'', CHR 0x1C])) = [CHR ''5'', CHR 0x1C]
   \<and> strip [CHR ''5'', CHR 0x1C] = ''5''
   \<and> numeric ''5''
   \<and> decimal_value ''5'' = 5
   \<and> py_int (strip [CHR ''5'', CHR 0x1C]) = Inr 5
   \<and> py_int [CHR ''5'', CHR 0x1C] = Inl ValueError
   \<and> validate_statement ''prog.f'' 1 (''1'' @ replicate 71 CHR '' '' @ [CHR ''5'', CHR 0x1C]) [] (- 1) =
       ([Issue ''prog.f'' 1 [74] (''1'' @ replicate 71 CHR '' '' @ [CHR ''5'', CHR 0x1C])
           [''statement contains'', ''illegal character''] True [''try removing'']],
        Inl ValueError)
   \<and> script ''prog.f'' (''1'' @ replicate 71 CHR '' '' @ [CHR ''5'', CHR 0x1C, CHR 0x0A] @ ''C'') =
       Inl ValueError"
  by code_simp

section \<open>Left justification\<close>

text \<open>
  C7, as the specification states it: the warning "consider left-justifying sequence
  field" is given exactly when the sequence field is non-empty and starts with a space,
  and so not to a line whose columns 73 to 80 are all blank. The two halves disagree:
  the first line below has blanks in columns 73 to 80 and gets the warning.
\<close>

theorem blank_sequence_field_warned:
  "read_statements (''1'' @ replicate 79 CHR '' '' @ [CHR 0x0A] @ ''C'') =
     [''1'' @ replicate 79 CHR '' '', ''C'']
   \<and> take 8 (drop 72 (''1'' @ replicate 79 CHR '' '')) = replicate 8 CHR '' ''
   \<and> validate ''prog.f'' [''1'' @ replicate 79 CHR '' '', ''C''] =
       ([Issue ''prog.f'' 1 [73, 74, 75, 76, 77, 78, 79, 80] (''1'' @ replicate 79 CHR '' '')
           [''consider left-justifying sequence field'', ''''] False []],
        Inr ([(1, 1)], - 1))"
  by code_simp

text \<open>
  C7, amended. For every non-comment line whose iteration ends without an exception, the
  warning "consider left-justifying sequence field" on columns 73 to 80 is among the
  issues of the line exactly when the line has a character in column 73 and that
  character is a space; so a line of fewer than 73 characters does not get it, and a
  line with blanks in columns 73 to 80 does.
\<close>

theorem left_justify_warning:
  assumes "\<not> startswith statement ''C''"
      and "snd (validate_statement fp ln statement labels sequencing) = Inr final"
  shows "(Issue fp ln [73, 74, 75, 76, 77, 78, 79, 80] statement
            [''consider left-justifying sequence field'', ''''] False []
            \<in> set (fst (validate_statement fp ln statement labels sequencing)))
         = (72 < length statement \<and> statement ! 72 = CHR '' '')"
proof -
  let ?q = "take 8 (drop 72 statement)"
  let ?l = "take 5 statement"
  let ?J = "Issue fp ln [73, 74, 75, 76, 77, 78, 79, 80] statement
              [''consider left-justifying sequence field'', ''''] False []"
  from assms obtain labels' where l: "snd (label_declaration fp ln statement ?l labels) = Inr labels'"
    by (auto simp: validate_statement_snd split: sum.splits)
  have others: "?J \<notin> set (illegal_characters fp ln statement)"
    "?J \<notin> set (column_limit fp ln statement)"
    "?J \<notin> set (label_characters fp ln statement ?l)"
    "?J \<notin> set (fst (label_declaration fp ln statement ?l labels))"
    "?J \<notin> set (continuation_character fp ln statement (take 1 (drop 5 statement)))"
    "?J \<notin> set (sequence_characters fp ln statement ?q)"
    "?J \<notin> set (fst (sequence_number fp ln statement ?q sequencing))"
    by (auto dest: illegal_characters_details column_limit_details label_characters_details
          label_declaration_details continuation_character_details sequence_characters_details
          sequence_number_details)
  have "(?J \<in> set (fst (validate_statement fp ln statement labels sequencing)))
      = (?J \<in> set (sequence_justified fp ln statement ?q))"
    using assms(1) l others by (simp add: validate_statement_fst)
  then show ?thesis by (simp only: sequence_justified_member)
qed

theorem left_justify_warning_witness:
  "\<not> startswith (''1'' @ replicate 79 CHR '' '') ''C''
   \<and> snd (validate_statement ''prog.f'' 1 (''1'' @ replicate 79 CHR '' '') [] (- 1)) =
       Inr ([(1, 1)], - 1)
   \<and> 72 < length (''1'' @ replicate 79 CHR '' '')
   \<and> (''1'' @ replicate 79 CHR '' '') ! 72 = CHR '' ''
   \<and> Issue ''prog.f'' 1 [73, 74, 75, 76, 77, 78, 79, 80] (''1'' @ replicate 79 CHR '' '')
        [''consider left-justifying sequence field'', ''''] False []
        \<in> set (fst (validate_statement ''prog.f'' 1 (''1'' @ replicate 79 CHR '' '') [] (- 1)))
   \<and> \<not> startswith ''1     X = 1'' ''C''
   \<and> snd (validate_statement ''prog.f'' 1 ''1     X = 1'' [] (- 1)) = Inr ([(1, 1)], - 1)
   \<and> \<not> 72 < length ''1     X = 1''
   \<and> Issue ''prog.f'' 1 [73, 74, 75, 76, 77, 78, 79, 80] ''1     X = 1''
        [''consider left-justifying sequence field'', ''''] False []
        \<notin> set (fst (validate_statement ''prog.f'' 1 ''1     X = 1'' [] (- 1)))"
proof -
  let ?W = "''1'' @ replicate 79 CHR '' ''"
  let ?V = "''1     X = 1''"
  have h1: "\<not> startswith ?W ''C''" by code_simp
  have h2: "snd (validate_statement ''prog.f'' 1 ?W [] (- 1)) = Inr ([(1, 1)], - 1)"
    by code_simp
  have h3: "72 < length ?W \<and> ?W ! 72 = CHR '' ''" by code_simp
  have k1: "\<not> startswith ?V ''C''" by code_simp
  have k2: "snd (validate_statement ''prog.f'' 1 ?V [] (- 1)) = Inr ([(1, 1)], - 1)"
    by code_simp
  have k3: "\<not> 72 < length ?V" by simp
  from left_justify_warning [OF h1 h2] h3
  have a: "Issue ''prog.f'' 1 [73, 74, 75, 76, 77, 78, 79, 80] ?W
        [''consider left-justifying sequence field'', ''''] False []
        \<in> set (fst (validate_statement ''prog.f'' 1 ?W [] (- 1)))" by blast
  from left_justify_warning [OF k1 k2] k3
  have b: "Issue ''prog.f'' 1 [73, 74, 75, 76, 77, 78, 79, 80] ?V
        [''consider left-justifying sequence field'', ''''] False []
        \<notin> set (fst (validate_statement ''prog.f'' 1 ?V [] (- 1)))" by blast
  from h1 h2 h3 k1 k2 k3 a b show ?thesis by blast
qed

section \<open>Comments\<close>

text \<open>
  C8. For every line whose first character is C, the iteration appends the issues of the
  character set and of the column limit and nothing else, so no issue of the label, the
  continuation or the sequence field, and it leaves \<^verbatim>\<open>labels\<close> and \<^verbatim>\<open>sequencing\<close> as
  they were.
\<close>

theorem comment_statement:
  assumes "statement \<noteq> []" and "hd statement = CHR ''C''"
  shows "validate_statement fp ln statement labels sequencing =
           (illegal_characters fp ln statement @ column_limit fp ln statement,
            Inr (labels, sequencing))
       \<and> list_all (\<lambda>d. self_details d = [''statement contains'', ''illegal character'']
                     \<or> self_details d = [''statement exceeds 80 column limit'', ''''])
           (fst (validate_statement fp ln statement labels sequencing))"
proof -
  from assms have c: "startswith statement ''C''" by (simp add: startswith_C)
  then have "validate_statement fp ln statement labels sequencing =
           (illegal_characters fp ln statement @ column_limit fp ln statement,
            Inr (labels, sequencing))"
    by (simp add: validate_statement_def)
  then show ?thesis
    by (auto simp: list_all_iff dest: illegal_characters_details column_limit_details)
qed

theorem comment_statement_witness:
  "''C see 10'' \<noteq> [] \<and> hd ''C see 10'' = CHR ''C''
   \<and> validate_statement ''prog.f'' 2 ''C see 10'' [(10, 1)] 5 =
       ([Issue ''prog.f'' 2 [3] ''C see 10'' [''statement contains'', ''illegal character'']
           True [''try removing''],
         Issue ''prog.f'' 2 [4] ''C see 10'' [''statement contains'', ''illegal character'']
           True [''try removing''],
         Issue ''prog.f'' 2 [5] ''C see 10'' [''statement contains'', ''illegal character'']
           True [''try removing'']],
        Inr ([(10, 1)], 5))"
proof -
  have e: "illegal_characters ''prog.f'' 2 ''C see 10'' @ column_limit ''prog.f'' 2 ''C see 10'' =
       [Issue ''prog.f'' 2 [3] ''C see 10'' [''statement contains'', ''illegal character'']
           True [''try removing''],
         Issue ''prog.f'' 2 [4] ''C see 10'' [''statement contains'', ''illegal character'']
           True [''try removing''],
         Issue ''prog.f'' 2 [5] ''C see 10'' [''statement contains'', ''illegal character'']
           True [''try removing'']]"
    by code_simp
  show ?thesis
    using comment_statement [of "''C see 10''" "''prog.f''" 2 "[(10, 1)]" 5] e by simp
qed

section \<open>Two runs\<close>

text \<open>
  What the loop reports depends on the values \<^verbatim>\<open>labels\<close> and \<^verbatim>\<open>sequencing\<close> hold when it
  starts: started on the label table a run has left, it reports a duplicate where the
  script reports nothing.
\<close>

lemma stale_state_differs:
  "validate_loop ''prog.f'' 0 [''10''] [] [(10, 1)] (- 1) \<noteq> validate ''prog.f'' [''10'']"
  by code_simp



section \<open>The continuation mark\<close>

text \<open>
  C10. The exclamation mark is not in \<^const>\<open>CHARSET\<close>. A non-comment line with an
  exclamation mark in column 6 gets no issue from the continuation block, and it gets the
  error "statement contains illegal character" on column 6.
\<close>

theorem continuation_mark_illegal:
  assumes "\<not> startswith statement ''C''" and "5 < length statement"
      and "statement ! 5 = CHR ''!''"
  shows "CHR ''!'' \<notin> set CHARSET
       \<and> continuation_character fp ln statement (take 1 (drop 5 statement)) = []
       \<and> Issue fp ln [6] statement [''statement contains'', ''illegal character''] True
           [''try removing'']
           \<in> set (fst (validate_statement fp ln statement labels sequencing))"
proof -
  have 1: "CHR ''!'' \<notin> set CHARSET" by (simp add: CHARSET_def)
  from assms(2,3) have "take 1 (drop 5 statement) = ''!''"
    by (simp add: take_Suc_conv_app_nth [of 0, simplified] hd_drop_conv_nth take_Suc)
  then have 2: "continuation_character fp ln statement (take 1 (drop 5 statement)) = []"
    by (simp add: continuation_character_def strip_def isspace_def)
  have "Issue fp ln [5 + 1] statement [''statement contains'', ''illegal character''] True
           [''try removing''] \<in> set (illegal_characters fp ln statement)"
    using assms(2,3) 1 by (intro illegal_characters_member) auto
  then have 3: "Issue fp ln [6] statement [''statement contains'', ''illegal character''] True
           [''try removing'']
           \<in> set (fst (validate_statement fp ln statement labels sequencing))"
    by (simp add: validate_statement_fst)
  from 1 2 3 show ?thesis by blast
qed

theorem continuation_mark_illegal_witness:
  "\<not> startswith ''     !X = 1'' ''C'' \<and> 5 < length ''     !X = 1''
   \<and> ''     !X = 1'' ! 5 = CHR ''!''
   \<and> continuation_character ''prog.f'' 2 ''     !X = 1'' (take 1 (drop 5 ''     !X = 1'')) = []
   \<and> Issue ''prog.f'' 2 [6] ''     !X = 1'' [''statement contains'', ''illegal character''] True
        [''try removing'']
        \<in> set (fst (validate_statement ''prog.f'' 2 ''     !X = 1'' [] (- 1)))"
proof -
  have h1: "\<not> startswith ''     !X = 1'' ''C''" by code_simp
  have h2: "5 < length ''     !X = 1''" by simp
  have h3: "''     !X = 1'' ! 5 = CHR ''!''" by simp
  from continuation_mark_illegal [OF h1 h2 h3, of "''prog.f''" 2 "[]" "- 1"] h1 h2 h3
  show ?thesis by blast
qed

end
